theory Spec2Isabelle
  imports Main "HOL-Library.Word" "HOL-Library.Sublist"
begin

section \<open>The file organizer: date extraction, collision-free moves, ledger and undo\<close>

text \<open>
  A shallow embedding of the Python package \<^verbatim>\<open>file_organizer\<close>:
  \<^item> \<^verbatim>\<open>organizers/photo_organizer.py\<close>: the EXIF date extractor and the photo organizer;
  \<^item> \<^verbatim>\<open>organizers/document_organizer.py\<close>, \<^verbatim>\<open>organizers/downloads_organizer.py\<close>;
  \<^item> \<^verbatim>\<open>file_organizer.py\<close>: the dispatcher, the generic organizer and the ledger write;
  \<^item> \<^verbatim>\<open>utils/backup.py\<close>: the ledger (manifest) and undo.

  Python exceptions are values: a function that can raise returns \<open>exn + 'a\<close>, and
  \<^verbatim>\<open>try/except\<close> is a case distinction on the exception. Mutation of the filesystem is
  explicit state passing.
\<close>

subsection \<open>Exceptions, bytes and \<^verbatim>\<open>struct\<close>\<close>

datatype exn = OSError | StructError | ValueError | JSONDecodeError

type_synonym byte = "8 word"

datatype endian = Big | Little

text \<open>The unsigned value of a byte string, most significant byte first.\<close>

definition be_value :: "byte list \<Rightarrow> nat" where
  "be_value bs = foldl (\<lambda>acc b. acc * 256 + unat b) 0 bs"

definition bytes_value :: "endian \<Rightarrow> byte list \<Rightarrow> nat" where
  "bytes_value e bs = (case e of Big \<Rightarrow> be_value bs | Little \<Rightarrow> be_value (rev bs))"

text \<open>
  \<^verbatim>\<open>struct.unpack_from(fmt, buffer, offset)\<close> for the unsigned formats \<^verbatim>\<open>H\<close> (\<open>sz = 2\<close>)
  and \<^verbatim>\<open>I\<close> (\<open>sz = 4\<close>): \<^verbatim>\<open>struct.error\<close> when the buffer is too short.
\<close>

definition unpack_from :: "endian \<Rightarrow> nat \<Rightarrow> byte list \<Rightarrow> nat \<Rightarrow> exn + nat" where
  "unpack_from e sz buf off =
     (if length buf < off + sz then Inl StructError
      else Inr (bytes_value e (take sz (drop off buf))))"

text \<open>\<^verbatim>\<open>struct.unpack(fmt, data)\<close>: the buffer must have exactly the size of the format.\<close>

definition unpack :: "endian \<Rightarrow> nat \<Rightarrow> byte list \<Rightarrow> exn + nat" where
  "unpack e sz buf =
     (if length buf \<noteq> sz then Inl StructError else Inr (bytes_value e buf))"

subsection \<open>A binary file opened for reading\<close>

text \<open>
  The object that \<^verbatim>\<open>open(path, "rb")\<close> returns: the bytes of the file and the read position.
  \<^verbatim>\<open>read(n)\<close> returns at most \<open>n\<close> bytes (fewer at the end of the file), reads to the end
  for \<open>n = -1\<close>, and raises \<^verbatim>\<open>ValueError\<close> for \<open>n < -1\<close>. \<^verbatim>\<open>seek(off, 1)\<close> moves the
  position relative to the current one, past the end if need be, and raises
  \<^verbatim>\<open>OSError\<close> for a position before the start.
\<close>

record reader =
  content :: "byte list"
  pos :: nat

definition f_read :: "reader \<Rightarrow> int \<Rightarrow> exn + (byte list \<times> reader)" where
  "f_read f n =
     (if n < - 1 then Inl ValueError
      else let rest = drop (pos f) (content f);
               chunk = (if n = - 1 then rest else take (nat n) rest)
           in Inr (chunk, f\<lparr>pos := pos f + length chunk\<rparr>))"

definition f_seek_cur :: "reader \<Rightarrow> int \<Rightarrow> exn + reader" where
  "f_seek_cur f off =
     (if int (pos f) + off < 0 then Inl OSError
      else Inr (f\<lparr>pos := nat (int (pos f) + off)\<rparr>))"

subsection \<open>The date string\<close>

definition rstrip_nul :: "byte list \<Rightarrow> byte list" where
  "rstrip_nul bs = rev (dropWhile (\<lambda>b. b = 0) (rev bs))"

text \<open>\<^verbatim>\<open>bytes.decode("ascii", errors="ignore")\<close>: bytes above 127 are dropped.\<close>

definition decode_ascii_ignore :: "byte list \<Rightarrow> string" where
  "decode_ascii_ignore bs = map (\<lambda>b. char_of (unat b)) (filter (\<lambda>b. b < 0x80) bs)"

text \<open>\<^verbatim>\<open>str.split(sep)\<close> for a one-character separator: never the empty list.\<close>

fun split_on :: "char \<Rightarrow> string \<Rightarrow> string list" where
  "split_on c [] = [[]]"
| "split_on c (x # xs) =
     (if x = c then [] # split_on c xs
      else (case split_on c xs of [] \<Rightarrow> [[x]] | p # ps \<Rightarrow> (x # p) # ps))"

text \<open>
  Lines 100 to 108 of \<^verbatim>\<open>_search_ifd_for_date\<close>: the value of one entry, as a year and a
  month, or \<open>None\<close> when the string has no second part or its first part is not four
  characters long.
\<close>

definition date_of_value :: "byte list \<Rightarrow> (string \<times> string) option" where
  "date_of_value raw =
     (let date_str = decode_ascii_ignore (rstrip_nul raw);
          parts = split_on CHR '':'' date_str
      in if 2 \<le> length parts \<and> length (parts ! 0) = 4
         then Some (parts ! 0, parts ! 1) else None)"

subsection \<open>The nested tag directory\<close>

definition target_tags :: "nat set" where
  "target_tags = {0x9003, 0x0132}"

text \<open>
  The \<^verbatim>\<open>for i in range(entry_count)\<close> loop of \<^verbatim>\<open>_search_ifd_for_date\<close>, over the list of
  the indices still to visit. \<^verbatim>\<open>break\<close> leaves the loop for the final \<^verbatim>\<open>return None\<close>.
\<close>

fun search_entries :: "byte list \<Rightarrow> nat \<Rightarrow> endian \<Rightarrow> nat list \<Rightarrow> exn + (string \<times> string) option" where
  "search_entries tiff_data ifd_offset e [] = Inr None"
| "search_entries tiff_data ifd_offset e (i # rest) =
     (let entry_offset = ifd_offset + 2 + i * 12 in
      if length tiff_data < entry_offset + 12 then Inr None
      else case unpack_from e 2 tiff_data entry_offset of
        Inl x \<Rightarrow> Inl x
      | Inr tag \<Rightarrow>
          if tag \<in> target_tags then
            (case unpack_from e 4 tiff_data (entry_offset + 4) of
               Inl x \<Rightarrow> Inl x
             | Inr value_count \<Rightarrow>
                (case unpack_from e 4 tiff_data (entry_offset + 8) of
                   Inl x \<Rightarrow> Inl x
                 | Inr value_offset \<Rightarrow>
                     if value_offset + value_count \<le> length tiff_data then
                       (case date_of_value (take value_count (drop value_offset tiff_data)) of
                          Some ym \<Rightarrow> Inr (Some ym)
                        | None \<Rightarrow> search_entries tiff_data ifd_offset e rest)
                     else search_entries tiff_data ifd_offset e rest))
          else search_entries tiff_data ifd_offset e rest)"

definition search_ifd_for_date :: "byte list \<Rightarrow> nat \<Rightarrow> endian \<Rightarrow> exn + (string \<times> string) option" where
  "search_ifd_for_date tiff_data ifd_offset e =
     (if length tiff_data < ifd_offset + 2 then Inr None
      else case unpack_from e 2 tiff_data ifd_offset of
        Inl x \<Rightarrow> Inl x
      | Inr entry_count \<Rightarrow> search_entries tiff_data ifd_offset e [0..<entry_count])"

definition parse_tiff_for_date :: "byte list \<Rightarrow> exn + (string \<times> string) option" where
  "parse_tiff_for_date tiff_data =
     (if length tiff_data < 8 then Inr None
      else let byte_order = take 2 tiff_data in
        if byte_order = [0x4D, 0x4D] then
          (case unpack_from Big 4 tiff_data 4 of
             Inl x \<Rightarrow> Inl x
           | Inr ifd_offset \<Rightarrow> search_ifd_for_date tiff_data ifd_offset Big)
        else if byte_order = [0x49, 0x49] then
          (case unpack_from Little 4 tiff_data 4 of
             Inl x \<Rightarrow> Inl x
           | Inr ifd_offset \<Rightarrow> search_ifd_for_date tiff_data ifd_offset Little)
        else Inr None)"

subsection \<open>The image container\<close>

text \<open>
  The \<^verbatim>\<open>while True\<close> loop of \<^verbatim>\<open>_extract_exif_date\<close> that looks for the APP1 marker.
  \<open>Inr None\<close> is \<^verbatim>\<open>return None\<close>, \<open>Inr (Some f)\<close> is \<^verbatim>\<open>break\<close> with the file positioned
  after the marker. Every round that continues has read four bytes and then moved by
  \<open>seg_len - 2 \<ge> -2\<close>, so the position grows and the loop ends.
\<close>

function scan_for_app1 :: "reader \<Rightarrow> exn + reader option" where
  "scan_for_app1 f =
     (case f_read f 2 of
        Inl x \<Rightarrow> Inl x
      | Inr (marker, f1) \<Rightarrow>
          if length marker < 2 then Inr None
          else if marker = [0xFF, 0xE1] then Inr (Some f1)
          else if take 1 marker \<noteq> [0xFF] then Inr None
          else (case f_read f1 2 of
                  Inl x \<Rightarrow> Inl x
                | Inr (seg_len_data, f2) \<Rightarrow>
                    if length seg_len_data < 2 then Inr None
                    else (case unpack Big 2 seg_len_data of
                            Inl x \<Rightarrow> Inl x
                          | Inr seg_len \<Rightarrow>
                              (case f_seek_cur f2 (int seg_len - 2) of
                                 Inl x \<Rightarrow> Inl x
                               | Inr f3 \<Rightarrow> scan_for_app1 f3))))"
  by pat_completeness auto
termination
proof (relation "measure (\<lambda>f. length (content f) - pos f)")
  show "wf (measure (\<lambda>f. length (content f) - pos f))"
    by simp
next
  fix f :: reader and x2 marker f1 x2a seg_len_data f2 seg_len f3
  assume r1: "f_read f 2 = Inr x2" and x2: "(marker, f1) = x2"
    and m: "\<not> length marker < 2"
    and r2: "f_read f1 2 = Inr x2a" and x2a: "(seg_len_data, f2) = x2a"
    and s: "\<not> length seg_len_data < 2"
    and sk: "f_seek_cur f2 (int seg_len - 2) = Inr f3"
  from r1 x2 have f1: "f1 = f\<lparr>pos := pos f + length marker\<rparr>"
    and mk: "marker = take 2 (drop (pos f) (content f))"
    by (auto simp: f_read_def Let_def)
  from r2 x2a have f2: "f2 = f1\<lparr>pos := pos f1 + length seg_len_data\<rparr>"
    and sl: "seg_len_data = take 2 (drop (pos f1) (content f1))"
    by (auto simp: f_read_def Let_def)
  from m mk have lm: "length marker = 2" and b1: "pos f + 2 \<le> length (content f)"
    by auto
  from s sl have ls: "length seg_len_data = 2"
    by auto
  from sk have f3: "content f3 = content f2" "int (pos f3) = int (pos f2) + int seg_len - 2"
    by (auto simp: f_seek_cur_def split: if_splits)
  from f1 f2 f3 lm ls have "content f3 = content f" "pos f + 2 \<le> pos f3"
    by auto
  with b1 show "(f3, f) \<in> measure (\<lambda>f. length (content f) - pos f)"
    by auto
qed

text \<open>
  The body of the \<^verbatim>\<open>with open(...)\<close> block of \<^verbatim>\<open>_extract_exif_date\<close>, on the opened file.
\<close>

definition extract_exif_body :: "reader \<Rightarrow> exn + (string \<times> string) option" where
  "extract_exif_body f =
     (case f_read f 2 of
        Inl x \<Rightarrow> Inl x
      | Inr (soi, f1) \<Rightarrow>
          if soi \<noteq> [0xFF, 0xD8] then Inr None
          else (case scan_for_app1 f1 of
                  Inl x \<Rightarrow> Inl x
                | Inr None \<Rightarrow> Inr None
                | Inr (Some f2) \<Rightarrow>
                    (case f_read f2 2 of
                       Inl x \<Rightarrow> Inl x
                     | Inr (app1_len_data, f3) \<Rightarrow>
                         if length app1_len_data < 2 then Inr None
                         else (case unpack Big 2 app1_len_data of
                                 Inl x \<Rightarrow> Inl x
                               | Inr app1_len \<Rightarrow>
                                   (case f_read f3 (int app1_len - 2) of
                                      Inl x \<Rightarrow> Inl x
                                    | Inr (app1_data, f4) \<Rightarrow>
                                        if \<not> prefix [0x45, 0x78, 0x69, 0x66, 0x00, 0x00] app1_data
                                        then Inr None
                                        else parse_tiff_for_date (drop 6 app1_data))))))"

text \<open>\<^verbatim>\<open>except (OSError, struct.error): return None\<close>; any other exception passes.\<close>

definition except_os_struct :: "exn + (string \<times> string) option \<Rightarrow> exn + (string \<times> string) option" where
  "except_os_struct r =
     (case r of
        Inl OSError \<Rightarrow> Inr None
      | Inl StructError \<Rightarrow> Inr None
      | _ \<Rightarrow> r)"

text \<open>
  \<^verbatim>\<open>_extract_exif_date\<close> on the bytes of a file that \<^verbatim>\<open>open\<close> has opened. \<open>Inr None\<close> is
  the result \<^verbatim>\<open>None\<close>, \<open>Inl x\<close> an exception that leaves the function.
\<close>

definition extract_exif_date_bytes :: "byte list \<Rightarrow> exn + (string \<times> string) option" where
  "extract_exif_date_bytes bs = except_os_struct (extract_exif_body \<lparr>content = bs, pos = 0\<rparr>)"

declare scan_for_app1.simps [simp del]

subsection \<open>Paths and the filesystem\<close>

text \<open>
  A path is the list of its components from the root; \<open>[]\<close> is the root directory, which
  always exists. \<^verbatim>\<open>p / name\<close> is \<open>p @ [name]\<close> and \<^verbatim>\<open>p.parent\<close> is \<open>butlast p\<close>. Names
  that come from data (a category's directory name, the year and the month of a date, a
  file name) are single components: the model does not interpret a separator, \<^verbatim>\<open>.\<close> or
  \<^verbatim>\<open>..\<close> inside a name, it takes an empty name for a component like any other, and it
  has no symbolic links, permissions or devices. A regular
  file holds raw bytes or a ledger document; the timestamp of a ledger record (a reading
  of the wall clock that no function of the package reads back) is left out.
\<close>

type_synonym path = "string list"

record backup_entry =
  source :: path
  destination :: path

datatype file_data = Raw "byte list" | Manifest_json "backup_entry list"

datatype node = File file_data | Dir

type_synonym fs = "path \<rightharpoonup> node"

definition node_at :: "fs \<Rightarrow> path \<Rightarrow> node option" where
  "node_at fs p = (if p = [] then Some Dir else fs p)"

definition path_exists :: "fs \<Rightarrow> path \<Rightarrow> bool" where
  "path_exists fs p = (node_at fs p \<noteq> None)"

definition is_dir :: "fs \<Rightarrow> path \<Rightarrow> bool" where
  "is_dir fs p = (node_at fs p = Some Dir)"

definition is_file :: "fs \<Rightarrow> path \<Rightarrow> bool" where
  "is_file fs p = (case node_at fs p of Some (File d) \<Rightarrow> True | _ \<Rightarrow> False)"

text \<open>
  \<^verbatim>\<open>Path.mkdir(parents=True, exist_ok=True)\<close>: nothing to do for a directory, an error
  for a regular file (at the path or above it), and otherwise the missing ancestors are
  made first. A failure leaves the filesystem as it was.
\<close>

fun mkdir_parents :: "fs \<Rightarrow> path \<Rightarrow> exn + fs" where
  "mkdir_parents fs p =
     (if p = [] then Inr fs
      else case fs p of
        Some Dir \<Rightarrow> Inr fs
      | Some (File d) \<Rightarrow> Inl OSError
      | None \<Rightarrow>
          (case mkdir_parents fs (butlast p) of
             Inl x \<Rightarrow> Inl x
           | Inr fs' \<Rightarrow> Inr (fs'(p \<mapsto> Dir))))"

declare mkdir_parents.simps [simp del]

text \<open>The subtree at \<open>src\<close> re-rooted at \<open>dst\<close>.\<close>

definition move_tree :: "fs \<Rightarrow> path \<Rightarrow> path \<Rightarrow> fs" where
  "move_tree fs src dst =
     (\<lambda>p. if prefix dst p then fs (src @ drop (length dst) p)
          else if prefix src p then None
          else fs p)"

text \<open>
  \<^verbatim>\<open>shutil.move(src, dst)\<close> on one device. A source moved to an existing directory goes
  inside it, under its own name, unless that name is taken (\<^verbatim>\<open>shutil.Error\<close>, an
  \<^verbatim>\<open>OSError\<close>). A regular file is renamed: it replaces a regular file at the
  destination, and the destination's parent must be a directory. A directory cannot
  replace a regular file nor move into itself; where its destination's parent is missing,
  the copying fallback of \<^verbatim>\<open>shutil.move\<close> makes it.
\<close>

definition shutil_move :: "fs \<Rightarrow> path \<Rightarrow> path \<Rightarrow> exn + fs" where
  "shutil_move fs src dst =
     (let real_dst = (if is_dir fs dst then dst @ [last src] else dst) in
      case node_at fs src of
        None \<Rightarrow> Inl OSError
      | Some (File d) \<Rightarrow>
          if is_dir fs dst \<and> path_exists fs real_dst then Inl OSError
          else if \<not> is_dir fs (butlast real_dst) then Inl OSError
          else Inr ((fs(src := None))(real_dst \<mapsto> File d))
      | Some Dir \<Rightarrow>
          if src = [] then Inl OSError
          else if is_dir fs dst \<and> src = dst then Inr fs
          else if is_dir fs dst \<and> path_exists fs real_dst then Inl OSError
          else if prefix src real_dst then Inl OSError
          else if path_exists fs real_dst then Inl OSError
          else (case mkdir_parents fs (butlast real_dst) of
                  Inl x \<Rightarrow> Inl x
                | Inr fs' \<Rightarrow> Inr (move_tree fs' src real_dst)))"

text \<open>\<^verbatim>\<open>open(path, "w")\<close> and a write: the parent must be a directory, the path must not be one.\<close>

definition write_file :: "fs \<Rightarrow> path \<Rightarrow> file_data \<Rightarrow> exn + fs" where
  "write_file fs p d =
     (if is_dir fs p then Inl OSError
      else if \<not> is_dir fs (butlast p) then Inl OSError
      else Inr (fs(p \<mapsto> File d)))"

text \<open>
  \<^verbatim>\<open>os.listdir\<close>, the directory enumeration primitive, is a parameter of the model: the
  names in a directory, in the order the operating system gives them. \<^verbatim>\<open>Path.iterdir\<close>
  joins each name to the directory.
\<close>

type_synonym lister = "fs \<Rightarrow> path \<Rightarrow> string list"

definition iterdir :: "lister \<Rightarrow> fs \<Rightarrow> path \<Rightarrow> path list" where
  "iterdir ls fs d = map (\<lambda>name. d @ [name]) (ls fs d)"

subsection \<open>File names\<close>

text \<open>
  \<^verbatim>\<open>PurePath.suffix\<close> and \<^verbatim>\<open>PurePath.stem\<close>: the name is cut at its last dot, unless
  that dot is the first or the last character.
\<close>

definition last_dot :: "string \<Rightarrow> nat" where
  "last_dot name = length name - 1 - length (takeWhile (\<lambda>c. c \<noteq> CHR ''.'') (rev name))"

definition cut_at_dot :: "string \<Rightarrow> bool" where
  "cut_at_dot name =
     (CHR ''.'' \<in> set name \<and> 0 < last_dot name \<and> last_dot name < length name - 1)"

definition py_suffix :: "string \<Rightarrow> string" where
  "py_suffix name = (if cut_at_dot name then drop (last_dot name) name else [])"

definition py_stem :: "string \<Rightarrow> string" where
  "py_stem name = (if cut_at_dot name then take (last_dot name) name else name)"

text \<open>\<^verbatim>\<open>str.lower\<close> on ASCII letters.\<close>

definition lower_char :: "char \<Rightarrow> char" where
  "lower_char c =
     (if (65::nat) \<le> of_char c \<and> of_char c \<le> (90::nat) then char_of (of_char c + (32::nat)) else c)"

definition lower :: "string \<Rightarrow> string" where
  "lower s = map lower_char s"

text \<open>\<^verbatim>\<open>str(n)\<close> for a natural number: its decimal digits.\<close>

fun str_nat :: "nat \<Rightarrow> string" where
  "str_nat n =
     (if n < 10 then [''0123456789'' ! n]
      else str_nat (n div 10) @ [''0123456789'' ! (n mod 10)])"

declare str_nat.simps [simp del]

subsection \<open>Configuration and results\<close>

text \<open>
  \<^verbatim>\<open>Config.categories\<close> is a dictionary from the category name to its extension list and
  its target directory name, here in insertion order (the names are distinct, as the keys
  of a dictionary are). The dictionary that an organizer returns is the record
  \<open>results\<close>.
\<close>

record category =
  extensions :: "string list"
  target_dir :: "string option"

type_synonym config = "(string \<times> category) list"

record results =
  moved :: nat
  would_move :: nat
  duplicates :: nat
  entries :: "(path \<times> path) list"

definition no_results :: results where
  "no_results = \<lparr>moved = 0, would_move = 0, duplicates = 0, entries = []\<rparr>"

text \<open>The set \<^verbatim>\<open>self._extensions\<close> that each organizer builds from its category.\<close>

definition lowered_extensions :: "config \<Rightarrow> string \<Rightarrow> string set" where
  "lowered_extensions cfg cat_name =
     (case map_of cfg cat_name of
        None \<Rightarrow> {}
      | Some cat_data \<Rightarrow> lower ` set (extensions cat_data))"

text \<open>\<^verbatim>\<open>scan\<close>: the regular files of the source directory with a recognised extension.\<close>

definition scan :: "lister \<Rightarrow> fs \<Rightarrow> string set \<Rightarrow> path \<Rightarrow> path list" where
  "scan ls fs exts source_dir =
     (if \<not> is_dir fs source_dir then []
      else filter (\<lambda>f. is_file fs f \<and> lower (py_suffix (last f)) \<in> exts) (iterdir ls fs source_dir))"

subsection \<open>Subfolders\<close>

text \<open>
  \<^verbatim>\<open>_extract_exif_date(photo_path)\<close>: \<^verbatim>\<open>open\<close> fails with an \<^verbatim>\<open>OSError\<close>, which the
  function catches, on anything but a regular file. A ledger document begins with a
  brace, not with the start-of-image marker.
\<close>

definition extract_exif_date :: "fs \<Rightarrow> path \<Rightarrow> exn + (string \<times> string) option" where
  "extract_exif_date fs photo_path =
     (case node_at fs photo_path of
        Some (File (Raw bs)) \<Rightarrow> extract_exif_date_bytes bs
      | Some (File (Manifest_json es)) \<Rightarrow> Inr None
      | _ \<Rightarrow> except_os_struct (Inl OSError))"

text \<open>\<^verbatim>\<open>_get_date_subfolder\<close>: \<^verbatim>\<open>YYYY/MM\<close>, two components, or \<^verbatim>\<open>unsorted\<close>.\<close>

definition get_date_subfolder :: "fs \<Rightarrow> path \<Rightarrow> exn + string list" where
  "get_date_subfolder fs photo =
     (case extract_exif_date fs photo of
        Inl x \<Rightarrow> Inl x
      | Inr (Some (year, month)) \<Rightarrow> Inr [year, month]
      | Inr None \<Rightarrow> Inr [''unsorted''])"

text \<open>\<^verbatim>\<open>_get_extension_subfolder\<close>: the suffix without its leading dots, in lower case.\<close>

definition get_extension_subfolder :: "fs \<Rightarrow> path \<Rightarrow> exn + string list" where
  "get_extension_subfolder fs doc =
     Inr [lower (dropWhile (\<lambda>c. c = CHR ''.'') (py_suffix (last doc)))]"

definition DOWNLOAD_TYPE_MAP :: "(string \<times> string) list" where
  "DOWNLOAD_TYPE_MAP =
     [(''.dmg'', ''installers''), (''.exe'', ''installers''), (''.msi'', ''installers''),
      (''.pkg'', ''installers''), (''.deb'', ''installers''), (''.rpm'', ''installers''),
      (''.appimage'', ''installers''),
      (''.zip'', ''archives''), (''.tar'', ''archives''), (''.gz'', ''archives''),
      (''.bz2'', ''archives''), (''.xz'', ''archives''), (''.7z'', ''archives''),
      (''.rar'', ''archives''),
      (''.iso'', ''disk_images''), (''.img'', ''disk_images'')]"

text \<open>\<^verbatim>\<open>_get_type_subfolder\<close>: the bucket of the table, or \<^verbatim>\<open>other\<close>.\<close>

definition get_type_subfolder :: "fs \<Rightarrow> path \<Rightarrow> exn + string list" where
  "get_type_subfolder fs download =
     Inr [case map_of DOWNLOAD_TYPE_MAP (lower (py_suffix (last download))) of
            Some bucket \<Rightarrow> bucket
          | None \<Rightarrow> ''other'']"

subsection \<open>Collision-free destinations and the move of one file\<close>

text \<open>
  The loop \<^verbatim>\<open>while dest.exists(): dest = dest_dir / f"{stem}_{counter}{suffix}"; counter += 1\<close>
  (\<open>sfx\<close> is the source's \<^verbatim>\<open>suffix\<close>). A filesystem of the model may hold every probed name, so the loop is a partial
  function: \<open>None\<close> is "does not return".
\<close>

partial_function (option) probe :: "fs \<Rightarrow> path \<Rightarrow> string \<Rightarrow> string \<Rightarrow> path \<Rightarrow> nat \<Rightarrow> path option" where
  "probe fs dest_dir stem sfx dest counter =
     (if path_exists fs dest
      then probe fs dest_dir stem sfx
             (dest_dir @ [stem @ ''_'' @ str_nat counter @ sfx]) (counter + 1)
      else Some dest)"

text \<open>
  The end of the loop body of every organizer (lines 169 to 177 of
  \<^verbatim>\<open>PhotoOrganizer.organize\<close>, lines 191 to 202 of \<^verbatim>\<open>_organize_generic\<close>): the destination
  is renamed if it exists, then the file is moved. The result is the new filesystem, the
  final destination and whether the duplicate counter went up.
\<close>

definition move_resolved :: "fs \<Rightarrow> path \<Rightarrow> path \<Rightarrow> (exn + fs \<times> path \<times> bool) option" where
  "move_resolved fs f dest_dir =
     (let dest = dest_dir @ [last f] in
      if path_exists fs dest then
        (case probe fs dest_dir (py_stem (last f)) (py_suffix (last f)) dest 1 of
           None \<Rightarrow> None
         | Some dest' \<Rightarrow>
             Some (case shutil_move fs f dest' of
                     Inl x \<Rightarrow> Inl x
                   | Inr fs' \<Rightarrow> Inr (fs', dest', True)))
      else
        Some (case shutil_move fs f dest of
                Inl x \<Rightarrow> Inl x
              | Inr fs' \<Rightarrow> Inr (fs', dest, False)))"

definition count_move :: "results \<Rightarrow> path \<Rightarrow> path \<Rightarrow> bool \<Rightarrow> results" where
  "count_move r f dest dup =
     r\<lparr>moved := moved r + 1,
       duplicates := duplicates r + (if dup then 1 else 0),
       entries := entries r @ [(f, dest)]\<rparr>"

subsection \<open>The organizers\<close>

text \<open>
  The \<^verbatim>\<open>for\<close> loop of \<^verbatim>\<open>PhotoOrganizer.organize\<close>, \<^verbatim>\<open>DocumentOrganizer.organize\<close> and
  \<^verbatim>\<open>DownloadsOrganizer.organize\<close>, which differ in the subfolder function only. The
  result is the filesystem as the loop leaves it, with the counts or with the exception
  that ended the loop.
\<close>

fun organize_loop ::
  "(fs \<Rightarrow> path \<Rightarrow> exn + string list) \<Rightarrow> path \<Rightarrow> bool \<Rightarrow> path list \<Rightarrow> fs \<Rightarrow> results
     \<Rightarrow> (fs \<times> (exn + results)) option" where
  "organize_loop sub target dry_run [] fs r = Some (fs, Inr r)"
| "organize_loop sub target dry_run (f # files) fs r =
     (case sub fs f of
        Inl x \<Rightarrow> Some (fs, Inl x)
      | Inr subfolder \<Rightarrow>
          if dry_run
          then organize_loop sub target dry_run files fs (r\<lparr>would_move := would_move r + 1\<rparr>)
          else (case mkdir_parents fs (target @ subfolder) of
                  Inl x \<Rightarrow> Some (fs, Inl x)
                | Inr fs1 \<Rightarrow>
                    (case move_resolved fs1 f (target @ subfolder) of
                       None \<Rightarrow> None
                     | Some (Inl x) \<Rightarrow> Some (fs1, Inl x)
                     | Some (Inr (fs2, dest, dup)) \<Rightarrow>
                         organize_loop sub target dry_run files fs2 (count_move r f dest dup))))"

datatype organizer = PhotoOrganizer | DocumentOrganizer | DownloadsOrganizer

definition category_name :: "organizer \<Rightarrow> string" where
  "category_name org =
     (case org of PhotoOrganizer \<Rightarrow> ''photos'' | DocumentOrganizer \<Rightarrow> ''documents''
      | DownloadsOrganizer \<Rightarrow> ''downloads'')"

definition subfolder_of :: "organizer \<Rightarrow> fs \<Rightarrow> path \<Rightarrow> exn + string list" where
  "subfolder_of org =
     (case org of PhotoOrganizer \<Rightarrow> get_date_subfolder
      | DocumentOrganizer \<Rightarrow> get_extension_subfolder
      | DownloadsOrganizer \<Rightarrow> get_type_subfolder)"

text \<open>\<^verbatim>\<open>organize(source_dir, target_dir, dry_run)\<close> of a dedicated organizer.\<close>

definition organizer_organize ::
  "lister \<Rightarrow> config \<Rightarrow> organizer \<Rightarrow> fs \<Rightarrow> path \<Rightarrow> path \<Rightarrow> bool \<Rightarrow> (fs \<times> (exn + results)) option" where
  "organizer_organize ls cfg org fs source_dir target dry_run =
     organize_loop (subfolder_of org) target dry_run
       (scan ls fs (lowered_extensions cfg (category_name org)) source_dir) fs no_results"

text \<open>The \<^verbatim>\<open>for\<close> loop of \<^verbatim>\<open>FileOrganizer._organize_generic\<close>.\<close>

fun generic_loop ::
  "path \<Rightarrow> string set \<Rightarrow> bool \<Rightarrow> path list \<Rightarrow> fs \<Rightarrow> results \<Rightarrow> (fs \<times> (exn + results)) option" where
  "generic_loop target exts dry_run [] fs r = Some (fs, Inr r)"
| "generic_loop target exts dry_run (f # files) fs r =
     (if \<not> is_file fs f then generic_loop target exts dry_run files fs r
      else if lower (py_suffix (last f)) \<notin> exts then generic_loop target exts dry_run files fs r
      else if dry_run
      then generic_loop target exts dry_run files fs (r\<lparr>would_move := would_move r + 1\<rparr>)
      else (case move_resolved fs f target of
              None \<Rightarrow> None
            | Some (Inl x) \<Rightarrow> Some (fs, Inl x)
            | Some (Inr (fs', dest, dup)) \<Rightarrow>
                generic_loop target exts dry_run files fs' (count_move r f dest dup)))"

definition organize_generic ::
  "lister \<Rightarrow> fs \<Rightarrow> path \<Rightarrow> path \<Rightarrow> string set \<Rightarrow> bool \<Rightarrow> (fs \<times> (exn + results)) option" where
  "organize_generic ls fs source_dir target exts dry_run =
     (if \<not> is_dir fs source_dir then Some (fs, Inr no_results)
      else if dry_run
      then generic_loop target exts dry_run (iterdir ls fs source_dir) fs no_results
      else (case mkdir_parents fs target of
              Inl x \<Rightarrow> Some (fs, Inl x)
            | Inr fs1 \<Rightarrow>
                generic_loop target exts dry_run (iterdir ls fs1 source_dir) fs1 no_results))"

subsection \<open>The ledger and undo\<close>

definition create_backup_entry :: "path \<Rightarrow> path \<Rightarrow> backup_entry" where
  "create_backup_entry src dst = \<lparr>source = src, destination = dst\<rparr>"

text \<open>
  \<^verbatim>\<open>save_manifest\<close>: the parent directory is made, then the document is written. The
  filesystem is returned also when the write raises.
\<close>

definition save_manifest :: "fs \<Rightarrow> backup_entry list \<Rightarrow> path \<Rightarrow> fs \<times> (exn + unit)" where
  "save_manifest fs manifest p =
     (case mkdir_parents fs (butlast p) of
        Inl x \<Rightarrow> (fs, Inl x)
      | Inr fs1 \<Rightarrow>
          (case write_file fs1 p (Manifest_json manifest) of
             Inl x \<Rightarrow> (fs1, Inl x)
           | Inr fs2 \<Rightarrow> (fs2, Inr ())))"

text \<open>
  \<^verbatim>\<open>load_manifest\<close>: the empty ledger when the file is missing. Raw bytes are taken not to
  parse as a ledger document.
\<close>

definition load_manifest :: "fs \<Rightarrow> path \<Rightarrow> exn + backup_entry list" where
  "load_manifest fs p =
     (case node_at fs p of
        None \<Rightarrow> Inr []
      | Some Dir \<Rightarrow> Inl OSError
      | Some (File (Raw bs)) \<Rightarrow> Inl JSONDecodeError
      | Some (File (Manifest_json es)) \<Rightarrow> Inr es)"





subsection \<open>The dispatcher\<close>

text \<open>
  The local variables of \<^verbatim>\<open>FileOrganizer.organize\<close>. The progress bar and
  \<^verbatim>\<open>_count_eligible_files\<close>, which feeds it, change nothing and are left out.
\<close>

record tally =
  total_moved :: nat
  total_would_move :: nat
  manifest :: "backup_entry list"
  category_results :: "(string \<times> results) list"

definition empty_tally :: tally where
  "empty_tally = \<lparr>total_moved = 0, total_would_move = 0, manifest = [], category_results = []\<rparr>"

definition record_results :: "tally \<Rightarrow> string \<Rightarrow> results \<Rightarrow> tally" where
  "record_results t cat_name res =
     \<lparr>total_moved = total_moved t + moved res,
      total_would_move = total_would_move t + would_move res,
      manifest = manifest t @ map (\<lambda>(src, dst). create_backup_entry src dst) (entries res),
      category_results = category_results t @ [(cat_name, res)]\<rparr>"

text \<open>\<^verbatim>\<open>_build_organizers\<close>: the dedicated organizers whose category is configured.\<close>

definition build_organizers :: "config \<Rightarrow> organizer list" where
  "build_organizers cfg =
     filter (\<lambda>org. category_name org \<in> fst ` set cfg)
       [PhotoOrganizer, DocumentOrganizer, DownloadsOrganizer]"

text \<open>\<^verbatim>\<open>if categories and cat_name not in categories: continue\<close>, negated.\<close>

definition selected :: "string list option \<Rightarrow> string \<Rightarrow> bool" where
  "selected categories cat_name =
     (case categories of
        None \<Rightarrow> True
      | Some cs \<Rightarrow> cs = [] \<or> cat_name \<in> set cs)"

text \<open>\<^verbatim>\<open>self.config.get_target_dir(cat_name) or cat_name\<close>.\<close>

definition dedicated_target_name :: "config \<Rightarrow> string \<Rightarrow> string" where
  "dedicated_target_name cfg cat_name =
     (case map_of cfg cat_name of
        None \<Rightarrow> cat_name
      | Some cat_data \<Rightarrow>
          (case target_dir cat_data of
             None \<Rightarrow> cat_name
           | Some d \<Rightarrow> if d = [] then cat_name else d))"

text \<open>\<^verbatim>\<open>cat_data.get("target_dir", cat_name)\<close>.\<close>

definition generic_target_name :: "string \<Rightarrow> category \<Rightarrow> string" where
  "generic_target_name cat_name cat_data =
     (case target_dir cat_data of None \<Rightarrow> cat_name | Some d \<Rightarrow> d)"

text \<open>The first loop of \<^verbatim>\<open>organize\<close>, over the dedicated organizers.\<close>

fun dedicated_loop ::
  "lister \<Rightarrow> config \<Rightarrow> path \<Rightarrow> path \<Rightarrow> bool \<Rightarrow> string list option \<Rightarrow> organizer list
     \<Rightarrow> fs \<Rightarrow> tally \<Rightarrow> (fs \<times> (exn + tally)) option" where
  "dedicated_loop ls cfg base_target source_dir dry_run categories [] fs t = Some (fs, Inr t)"
| "dedicated_loop ls cfg base_target source_dir dry_run categories (org # orgs) fs t =
     (if \<not> selected categories (category_name org)
      then dedicated_loop ls cfg base_target source_dir dry_run categories orgs fs t
      else
        (case organizer_organize ls cfg org fs source_dir
                (base_target @ [dedicated_target_name cfg (category_name org)]) dry_run of
           None \<Rightarrow> None
         | Some (fs', Inl x) \<Rightarrow> Some (fs', Inl x)
         | Some (fs', Inr res) \<Rightarrow>
             dedicated_loop ls cfg base_target source_dir dry_run categories orgs fs'
               (record_results t (category_name org) res)))"

text \<open>The second loop of \<^verbatim>\<open>organize\<close>, over the categories without a dedicated organizer.\<close>

fun generic_categories_loop ::
  "lister \<Rightarrow> config \<Rightarrow> path \<Rightarrow> path \<Rightarrow> bool \<Rightarrow> string list option \<Rightarrow> (string \<times> category) list
     \<Rightarrow> fs \<Rightarrow> tally \<Rightarrow> (fs \<times> (exn + tally)) option" where
  "generic_categories_loop ls cfg base_target source_dir dry_run categories [] fs t = Some (fs, Inr t)"
| "generic_categories_loop ls cfg base_target source_dir dry_run categories
     ((cat_name, cat_data) # rest) fs t =
     (if cat_name \<in> category_name ` set (build_organizers cfg)
      then generic_categories_loop ls cfg base_target source_dir dry_run categories rest fs t
      else if \<not> selected categories cat_name
      then generic_categories_loop ls cfg base_target source_dir dry_run categories rest fs t
      else
        (case organize_generic ls fs source_dir
                (base_target @ [generic_target_name cat_name cat_data])
                (lower ` set (extensions cat_data)) dry_run of
           None \<Rightarrow> None
         | Some (fs', Inl x) \<Rightarrow> Some (fs', Inl x)
         | Some (fs', Inr res) \<Rightarrow>
             generic_categories_loop ls cfg base_target source_dir dry_run categories rest fs'
               (record_results t cat_name res)))"

definition manifest_name :: string where
  "manifest_name = ''.file_organizer_manifest.json''"

record organize_result =
  result_total_moved :: nat
  result_total_would_move :: nat
  result_categories :: "(string \<times> results) list"

definition result_of :: "tally \<Rightarrow> organize_result" where
  "result_of t =
     \<lparr>result_total_moved = total_moved t,
      result_total_would_move = total_would_move t,
      result_categories = category_results t\<rparr>"

text \<open>
  \<^verbatim>\<open>FileOrganizer.organize(source_dir, dry_run, categories)\<close> for an organizer built from
  \<open>cfg\<close> and \<open>base_target\<close>, run on the filesystem \<open>fs\<close>.
\<close>

definition organize ::
  "lister \<Rightarrow> config \<Rightarrow> path \<Rightarrow> fs \<Rightarrow> path \<Rightarrow> bool \<Rightarrow> string list option
     \<Rightarrow> (fs \<times> (exn + organize_result)) option" where
  "organize ls cfg base_target fs source_dir dry_run categories =
     (case dedicated_loop ls cfg base_target source_dir dry_run categories
             (build_organizers cfg) fs empty_tally of
        None \<Rightarrow> None
      | Some (fs1, Inl x) \<Rightarrow> Some (fs1, Inl x)
      | Some (fs1, Inr t1) \<Rightarrow>
          (case generic_categories_loop ls cfg base_target source_dir dry_run categories cfg fs1 t1 of
             None \<Rightarrow> None
           | Some (fs2, Inl x) \<Rightarrow> Some (fs2, Inl x)
           | Some (fs2, Inr t2) \<Rightarrow>
               if \<not> dry_run \<and> 0 < total_moved t2 then
                 (case mkdir_parents fs2 base_target of
                    Inl x \<Rightarrow> Some (fs2, Inl x)
                  | Inr fs3 \<Rightarrow>
                      (case save_manifest fs3 (manifest t2) (base_target @ [manifest_name]) of
                         (fs4, Inl x) \<Rightarrow> Some (fs4, Inl x)
                       | (fs4, Inr u) \<Rightarrow> Some (fs4, Inr (result_of t2))))
               else Some (fs2, Inr (result_of t2))))"

section \<open>Notions used to state the properties\<close>






text \<open>A later filesystem that differs from an earlier one by new directories only.\<close>

definition only_adds_dirs :: "fs \<Rightarrow> fs \<Rightarrow> bool" where
  "only_adds_dirs fs fs' = (\<forall>p. fs' p = fs p \<or> (fs p = None \<and> fs' p = Some Dir))"

text \<open>
  The record sequence that the per-category results of a run stand for: the entries of
  every category, in the order of the categories, each made a ledger entry.
\<close>

definition ledger_of :: "(string \<times> results) list \<Rightarrow> backup_entry list" where
  "ledger_of cats =
     concat (map (\<lambda>(cat_name, res). map (\<lambda>(src, dst). create_backup_entry src dst) (entries res)) cats)"

text \<open>The running totals of a run that has moved nothing and recorded nothing.\<close>

definition dry_tally :: "tally \<Rightarrow> bool" where
  "dry_tally t = (total_moved t = 0 \<and> manifest t = []
     \<and> list_all (\<lambda>(cat_name, res). moved res = 0 \<and> entries res = []) (category_results t))"

text \<open>The ledger in memory holds the entries of the categories organized so far.\<close>

definition tally_ok :: "tally \<Rightarrow> bool" where
  "tally_ok t = (manifest t = ledger_of (category_results t))"









section \<open>Concrete inputs\<close>

text \<open>
  The image that the repository's test \<^verbatim>\<open>test_photo_with_exif_date_goes_to_year_month_folder\<close>
  builds: big-endian, one directory entry with tag \<open>0x9003\<close> and the value
  \<^verbatim>\<open>2023:06:15 10:30:00\<close>.
\<close>

definition exif_jpeg :: "byte list" where
  "exif_jpeg =
     [0xFF, 0xD8, 0xFF, 0xE1, 0x00, 0x36, 0x45, 0x78, 0x69, 0x66, 0x00, 0x00,
      0x4D, 0x4D, 0x00, 0x2A, 0x00, 0x00, 0x00, 0x08,
      0x00, 0x01,
      0x90, 0x03, 0x00, 0x02, 0x00, 0x00, 0x00, 0x14, 0x00, 0x00, 0x00, 0x1A,
      0x00, 0x00, 0x00, 0x00,
      0x32, 0x30, 0x32, 0x33, 0x3A, 0x30, 0x36, 0x3A, 0x31, 0x35, 0x20,
      0x31, 0x30, 0x3A, 0x33, 0x30, 0x3A, 0x30, 0x30, 0x00,
      0xFF, 0xD9]"

text \<open>A start-of-image marker, an APP1 marker and the segment length 0.\<close>

definition zero_length_jpeg :: "byte list" where
  "zero_length_jpeg = [0xFF, 0xD8, 0xFF, 0xE1, 0x00, 0x00]"






text \<open>A source directory \<^verbatim>\<open>/s\<close> that holds one text file, and no target tree.\<close>

definition empty_source_fs :: fs where
  "empty_source_fs = [[''s''] \<mapsto> Dir, [''s'', ''notes.txt''] \<mapsto> File (Raw [1])]"

text \<open>
  A run on it that moves nothing: the one category takes scripts only. The target root
  \<^verbatim>\<open>/out\<close> and the category's directory are made all the same.
\<close>

definition zero_move_config :: config where
  "zero_move_config = [(''code'', \<lparr>extensions = [''.py''], target_dir = Some ''Code''\<rparr>)]"

definition zero_move_fs_after :: fs where
  "zero_move_fs_after =
     [[''s''] \<mapsto> Dir, [''s'', ''notes.txt''] \<mapsto> File (Raw [1]),
      [''out''] \<mapsto> Dir, [''out'', ''Code''] \<mapsto> Dir]"

definition zero_move_result :: organize_result where
  "zero_move_result =
     \<lparr>result_total_moved = 0, result_total_would_move = 0,
      result_categories = [(''code'', no_results)]\<rparr>"

text \<open>
  A run of the whole tool: the photo category with its dedicated organizer and a generic
  category whose extension is configured in upper case; a source directory \<^verbatim>\<open>/s\<close> with a
  dated photo, a script and a text file that no category takes; and a directory
  enumeration that lists the names present, in a fixed order.
\<close>

definition demo_config :: config where
  "demo_config = [(''photos'', \<lparr>extensions = [''.jpg''], target_dir = Some ''Photos''\<rparr>),
                  (''code'', \<lparr>extensions = [''.PY''], target_dir = Some ''Code''\<rparr>)]"

definition demo_fs :: fs where
  "demo_fs = [[''s''] \<mapsto> Dir,
              [''s'', ''vacation.jpg''] \<mapsto> File (Raw exif_jpeg),
              [''s'', ''main.py''] \<mapsto> File (Raw [0x70]),
              [''s'', ''notes.txt''] \<mapsto> File (Raw [0x6E])]"

definition demo_lister :: lister where
  "demo_lister fs d = filter (\<lambda>name. path_exists fs (d @ [name]))
     [''vacation.jpg'', ''main.py'', ''notes.txt'', ''organized'']"

definition demo_ledger :: "backup_entry list" where
  "demo_ledger =
     [\<lparr>source = [''s'', ''vacation.jpg''],
       destination = [''s'', ''organized'', ''Photos'', ''2023'', ''06'', ''vacation.jpg'']\<rparr>,
      \<lparr>source = [''s'', ''main.py''],
       destination = [''s'', ''organized'', ''Code'', ''main.py'']\<rparr>]"

text \<open>What the run leaves in execute mode, and what it reports.\<close>

definition demo_fs_after :: fs where
  "demo_fs_after =
     [[''s''] \<mapsto> Dir,
      [''s'', ''notes.txt''] \<mapsto> File (Raw [0x6E]),
      [''s'', ''organized''] \<mapsto> Dir,
      [''s'', ''organized'', ''Photos''] \<mapsto> Dir,
      [''s'', ''organized'', ''Photos'', ''2023''] \<mapsto> Dir,
      [''s'', ''organized'', ''Photos'', ''2023'', ''06''] \<mapsto> Dir,
      [''s'', ''organized'', ''Photos'', ''2023'', ''06'', ''vacation.jpg''] \<mapsto> File (Raw exif_jpeg),
      [''s'', ''organized'', ''Code''] \<mapsto> Dir,
      [''s'', ''organized'', ''Code'', ''main.py''] \<mapsto> File (Raw [0x70]),
      [''s'', ''organized'', ''.file_organizer_manifest.json''] \<mapsto> File (Manifest_json demo_ledger)]"

definition demo_result :: organize_result where
  "demo_result =
     \<lparr>result_total_moved = 2, result_total_would_move = 0,
      result_categories =
        [(''photos'', \<lparr>moved = 1, would_move = 0, duplicates = 0,
            entries = [([''s'', ''vacation.jpg''],
                        [''s'', ''organized'', ''Photos'', ''2023'', ''06'', ''vacation.jpg''])]\<rparr>),
         (''code'', \<lparr>moved = 1, would_move = 0, duplicates = 0,
            entries = [([''s'', ''main.py''], [''s'', ''organized'', ''Code'', ''main.py''])]\<rparr>)]\<rparr>"

text \<open>
  A run that stops half way: the first category takes \<^verbatim>\<open>main.py\<close>, and the target
  directory of the second, \<^verbatim>\<open>/s/organized/Text\<close>, is a regular file.
\<close>

definition blocked_config :: config where
  "blocked_config = [(''code'', \<lparr>extensions = [''.py''], target_dir = Some ''Code''\<rparr>),
                     (''text'', \<lparr>extensions = [''.txt''], target_dir = Some ''Text''\<rparr>)]"

definition blocked_fs :: fs where
  "blocked_fs = [[''s''] \<mapsto> Dir,
                 [''s'', ''main.py''] \<mapsto> File (Raw [0x70]),
                 [''s'', ''organized''] \<mapsto> Dir,
                 [''s'', ''organized'', ''Text''] \<mapsto> File (Raw [])]"

definition blocked_lister :: lister where
  "blocked_lister fs d = filter (\<lambda>name. path_exists fs (d @ [name])) [''main.py'', ''organized'']"

definition blocked_fs_after :: fs where
  "blocked_fs_after =
     [[''s''] \<mapsto> Dir,
      [''s'', ''organized''] \<mapsto> Dir,
      [''s'', ''organized'', ''Text''] \<mapsto> File (Raw []),
      [''s'', ''organized'', ''Code''] \<mapsto> Dir,
      [''s'', ''organized'', ''Code'', ''main.py''] \<mapsto> File (Raw [0x70])]"










section \<open>The date extractor\<close>

lemmas extractor_eval =
  extract_exif_date_bytes_def extract_exif_body_def f_read_def f_seek_cur_def
  scan_for_app1.simps unpack_def unpack_from_def bytes_value_def be_value_def
  except_os_struct_def parse_tiff_for_date_def search_ifd_for_date_def target_tags_def
  date_of_value_def rstrip_nul_def decode_ascii_ignore_def Let_def char_of_def upt_rec
  bit_Suc_0_iff


text \<open>
  Inside the nested container every read is in range: neither the directory search nor
  the parser ever raises.
\<close>

lemma search_entries_no_exn: "\<exists>r. search_entries tiff_data ifd_offset e js = Inr r"
  by (induction js) (auto simp: unpack_from_def Let_def split: option.splits)

lemma parse_tiff_no_exn: "\<exists>r. parse_tiff_for_date tiff_data = Inr r"
  using search_entries_no_exn
  by (auto simp: parse_tiff_for_date_def search_ifd_for_date_def unpack_from_def Let_def)


text \<open>
  \<^bold>\<open>Claim C2\<close>. The extractor is to return a pair or no date for every byte sequence and
  never to raise. On the six bytes of \<open>zero_length_jpeg\<close> it raises: the APP1 length 0
  makes the payload read \<^verbatim>\<open>f.read(-2)\<close>, a \<^verbatim>\<open>ValueError\<close>, which
  \<^verbatim>\<open>except (OSError, struct.error)\<close> does not catch.
\<close>

theorem zero_app1_length_raises:
  "extract_exif_date_bytes zero_length_jpeg = Inl ValueError"
  by (simp add: extractor_eval zero_length_jpeg_def)






section \<open>The filesystem primitives\<close>



lemma mkdir_parents_adds_dirs:
  "mkdir_parents fs p = Inr fs' \<Longrightarrow>
     is_dir fs' p \<and> (\<forall>q. fs' q = fs q \<or> (fs q = None \<and> fs' q = Some Dir \<and> prefix q p))"
proof (induction fs p arbitrary: fs' rule: mkdir_parents.induct)
  case (1 fs p)
  show ?case
  proof (cases "p = []")
    case True
    with "1.prems" show ?thesis
      by (subst (asm) mkdir_parents.simps) (simp add: is_dir_def node_at_def)
  next
    case False
    note ne = False
    show ?thesis
    proof (cases "fs p")
      case None
      with ne "1.prems" obtain fs1 where m: "mkdir_parents fs (butlast p) = Inr fs1"
        and fs': "fs' = fs1(p \<mapsto> Dir)"
        by (subst (asm) mkdir_parents.simps) (auto split: sum.splits)
      from "1.IH" [OF ne None m]
      have ih: "\<forall>q. fs1 q = fs q \<or> (fs q = None \<and> fs1 q = Some Dir \<and> prefix q (butlast p))"
        by simp
      have pb: "\<And>q. prefix q (butlast p) \<Longrightarrow> prefix q p"
        by (metis prefix_order.trans prefixeq_butlast)
      show ?thesis
        using ih None ne pb by (auto simp: fs' is_dir_def node_at_def)
    next
      case (Some n)
      with ne "1.prems" show ?thesis
        by (subst (asm) mkdir_parents.simps)
          (auto simp: is_dir_def node_at_def split: node.splits)
    qed
  qed
qed

lemma mkdir_parents_creatable:
  "list_all (\<lambda>q. \<not> is_file fs q) (prefixes p) \<Longrightarrow> \<exists>fs'. mkdir_parents fs p = Inr fs'"
proof (induction fs p rule: mkdir_parents.induct)
  case (1 fs p)
  show ?case
  proof (cases "p = []")
    case True
    then show ?thesis by (subst mkdir_parents.simps) simp
  next
    case False
    note ne = False
    from "1.prems" have nf: "\<not> is_file fs p"
      by (simp add: list_all_iff)
    show ?thesis
    proof (cases "fs p")
      case None
      have "\<And>q. prefix q (butlast p) \<Longrightarrow> prefix q p"
        by (metis prefix_order.trans prefixeq_butlast)
      then have "list_all (\<lambda>q. \<not> is_file fs q) (prefixes (butlast p))"
        using "1.prems" by (auto simp: list_all_iff in_set_prefixes)
      from "1.IH" [OF ne None this] None ne show ?thesis
        by (subst mkdir_parents.simps) auto
    next
      case (Some n)
      with nf ne show ?thesis
        by (subst mkdir_parents.simps)
          (auto simp: is_file_def node_at_def split: node.splits)
    qed
  qed
qed




section \<open>Undo\<close>












section \<open>Generic categories\<close>

lemma is_file_iff: "is_file fs p \<longleftrightarrow> (\<exists>d. p \<noteq> [] \<and> fs p = Some (File d))"
  by (auto simp: is_file_def node_at_def split: option.splits node.splits)

lemma mkdir_parents_is_file:
  "mkdir_parents fs p = Inr fs' \<Longrightarrow> is_file fs' q = is_file fs q"
  using mkdir_parents_adds_dirs [of fs p fs'] by (auto simp: is_file_iff) (metis node.distinct(1) option.inject option.distinct(1))+

lemma generic_loop_no_match:
  assumes "\<forall>f \<in> set files. \<not> is_file fs f \<or> lower (py_suffix (last f)) \<notin> exts"
  shows "generic_loop target exts dry_run files fs r = Some (fs, Inr r)"
  using assms by (induction files) auto

text \<open>
  \<^bold>\<open>Claim C10\<close>. In execute mode \<^verbatim>\<open>_organize_generic\<close> makes the category's target directory
  before it looks at any file. Where the source is a directory, the target can be made (no
  regular file at it or above it) and no regular file of the source has one of the
  category's extensions, the call returns with nothing moved, and the filesystem it leaves
  is the one that \<^verbatim>\<open>mkdir\<close> gives, with the target directory in it: a target that did
  not exist before makes a zero-move run change the filesystem.
\<close>

theorem generic_creates_target_without_matches:
  assumes "is_dir fs source_dir"
    and "list_all (\<lambda>q. \<not> is_file fs q) (prefixes target)"
    and "\<forall>name. is_file fs (source_dir @ [name]) \<longrightarrow> lower (py_suffix name) \<notin> exts"
  shows "\<exists>fs'. organize_generic ls fs source_dir target exts False = Some (fs', Inr no_results)
           \<and> mkdir_parents fs target = Inr fs' \<and> is_dir fs' target
           \<and> (\<not> path_exists fs target \<longrightarrow> fs' \<noteq> fs)"
proof -
  from assms(2) obtain fs' where mk: "mkdir_parents fs target = Inr fs'"
    using mkdir_parents_creatable by blast
  have dir: "is_dir fs' target"
    using mkdir_parents_adds_dirs [OF mk] by simp
  have "\<forall>f \<in> set (iterdir ls fs' source_dir).
          \<not> is_file fs' f \<or> lower (py_suffix (last f)) \<notin> exts"
    using assms(3) by (auto simp: iterdir_def mkdir_parents_is_file [OF mk])
  then have loop: "generic_loop target exts False (iterdir ls fs' source_dir) fs' no_results
                     = Some (fs', Inr no_results)"
    by (rule generic_loop_no_match)
  have "fs' \<noteq> fs" if "\<not> path_exists fs target"
    using that dir by (auto simp: path_exists_def is_dir_def)
  with assms(1) mk loop dir show ?thesis
    by (simp add: organize_generic_def)
qed

theorem generic_creates_target_without_matches_witness:
  "\<not> path_exists empty_source_fs [''out'', ''Code'']
   \<and> (\<exists>fs'. organize_generic (\<lambda>fs d. [''notes.txt'']) empty_source_fs [''s''] [''out'', ''Code'']
               {''.py''} False = Some (fs', Inr no_results)
          \<and> is_dir fs' [''out'', ''Code''] \<and> fs' \<noteq> empty_source_fs)"
proof -
  have h1: "is_dir empty_source_fs [''s'']"
    by (simp add: empty_source_fs_def is_dir_def node_at_def)
  have h2: "list_all (\<lambda>q. \<not> is_file empty_source_fs q) (prefixes [''out'', ''Code''])"
    by (simp add: empty_source_fs_def is_file_def node_at_def)
  have h3: "\<forall>name. is_file empty_source_fs ([''s''] @ [name]) \<longrightarrow> lower (py_suffix name) \<notin> {''.py''}"
    by (auto simp: empty_source_fs_def is_file_def node_at_def lower_def lower_char_def
        py_suffix_def cut_at_dot_def last_dot_def split: if_splits)
  have h4: "\<not> path_exists empty_source_fs [''out'', ''Code'']"
    by (simp add: empty_source_fs_def path_exists_def node_at_def)
  from generic_creates_target_without_matches [OF h1 h2 h3, of "\<lambda>fs d. [''notes.txt'']"] h4
  show ?thesis by blast
qed

section \<open>Evaluation of concrete runs\<close>

text \<open>The equations that evaluate a run of the tool on a concrete filesystem.\<close>

lemmas run_eval =
  organize_def build_organizers_def category_name_def selected_def dedicated_target_name_def
  generic_target_name_def organizer_organize_def subfolder_of_def scan_def iterdir_def
  lowered_extensions_def lower_def lower_char_def py_suffix_def py_stem_def cut_at_dot_def
  last_dot_def is_dir_def is_file_def path_exists_def node_at_def get_date_subfolder_def
  get_extension_subfolder_def get_type_subfolder_def
  extract_exif_date_def mkdir_parents.simps move_resolved_def shutil_move_def probe.simps
  str_nat.simps count_move_def no_results_def record_results_def empty_tally_def result_of_def
  save_manifest_def write_file_def manifest_name_def create_backup_entry_def
  organize_generic_def Let_def char_of_def bit_Suc_0_iff

lemma exif_jpeg_date: "extract_exif_date_bytes exif_jpeg = Inr (Some (''2023'', ''06''))"
  by (simp add: extractor_eval exif_jpeg_def)

lemma demo_run:
  "organize demo_lister demo_config [''s'', ''organized''] demo_fs [''s''] False None
     = Some (demo_fs_after, Inr demo_result)"
  by (simp add: run_eval demo_config_def demo_fs_def demo_lister_def exif_jpeg_date
      demo_fs_after_def demo_result_def demo_ledger_def fun_eq_iff)

lemma zero_move_run:
  "organize (\<lambda>fs d. [''notes.txt'']) zero_move_config [''out''] empty_source_fs [''s''] False None
     = Some (zero_move_fs_after, Inr zero_move_result)"
  by (simp add: run_eval zero_move_config_def empty_source_fs_def zero_move_fs_after_def
      zero_move_result_def fun_eq_iff)

section \<open>Simulate mode\<close>

lemma only_adds_dirs_refl: "only_adds_dirs fs fs"
  by (simp add: only_adds_dirs_def)

lemma only_adds_dirs_trans:
  "only_adds_dirs a b \<Longrightarrow> only_adds_dirs b c \<Longrightarrow> only_adds_dirs a c"
  unfolding only_adds_dirs_def by (metis option.distinct(1))

lemma mkdir_parents_only_adds_dirs: "mkdir_parents fs p = Inr fs' \<Longrightarrow> only_adds_dirs fs fs'"
  using mkdir_parents_adds_dirs [of fs p fs'] by (auto simp: only_adds_dirs_def)

lemma organize_loop_dry:
  "\<exists>x. organize_loop sub target True files fs r = Some (fs, x)
        \<and> (\<forall>r'. x = Inr r' \<longrightarrow> moved r' = moved r \<and> entries r' = entries r)"
proof (induction files arbitrary: r)
  case Nil
  then show ?case by simp
next
  case (Cons f files)
  show ?case
  proof (cases "sub fs f")
    case (Inl x)
    then show ?thesis by simp
  next
    case (Inr subfolder)
    with Cons.IH [of "r\<lparr>would_move := would_move r + 1\<rparr>"] show ?thesis by simp
  qed
qed

lemma generic_loop_dry:
  "\<exists>r'. generic_loop target exts True files fs r = Some (fs, Inr r')
        \<and> moved r' = moved r \<and> entries r' = entries r"
proof (induction files arbitrary: r)
  case Nil
  then show ?case by simp
next
  case (Cons f files)
  from Cons.IH [of r] Cons.IH [of "r\<lparr>would_move := would_move r + 1\<rparr>"] show ?case
    by auto
qed

lemma organizer_organize_dry:
  "\<exists>x. organizer_organize ls cfg org fs source_dir target True = Some (fs, x)
        \<and> (\<forall>res. x = Inr res \<longrightarrow> moved res = 0 \<and> entries res = [])"
  using organize_loop_dry [of "subfolder_of org" target _ fs no_results]
  by (simp add: organizer_organize_def no_results_def)

lemma organize_generic_dry:
  "\<exists>res. organize_generic ls fs source_dir target exts True = Some (fs, Inr res)
        \<and> moved res = 0 \<and> entries res = []"
  using generic_loop_dry [of target exts _ fs no_results]
  by (simp add: organize_generic_def no_results_def)

lemma dry_tally_record:
  "dry_tally t \<Longrightarrow> moved res = 0 \<Longrightarrow> entries res = [] \<Longrightarrow> dry_tally (record_results t n res)"
  by (simp add: dry_tally_def record_results_def)

lemma dedicated_loop_dry:
  "dry_tally t \<Longrightarrow>
   \<exists>x. dedicated_loop ls cfg base_target source_dir True categories orgs fs t = Some (fs, x)
        \<and> (\<forall>t'. x = Inr t' \<longrightarrow> dry_tally t')"
proof (induction orgs arbitrary: t)
  case Nil
  then show ?case by simp
next
  case (Cons org orgs)
  show ?case
  proof (cases "selected categories (category_name org)")
    case False
    with Cons show ?thesis by simp
  next
    case True
    obtain x where x: "organizer_organize ls cfg org fs source_dir
        (base_target @ [dedicated_target_name cfg (category_name org)]) True = Some (fs, x)"
      and res: "\<And>res. x = Inr res \<Longrightarrow> moved res = 0 \<and> entries res = []"
      using organizer_organize_dry by blast
    show ?thesis
    proof (cases x)
      case (Inl e)
      with x True show ?thesis by simp
    next
      case (Inr res')
      with res have "dry_tally (record_results t (category_name org) res')"
        using Cons.prems by (simp add: dry_tally_record)
      from Cons.IH [OF this] x True Inr show ?thesis by simp
    qed
  qed
qed

lemma generic_categories_loop_dry:
  "dry_tally t \<Longrightarrow>
   \<exists>t'. generic_categories_loop ls cfg base_target source_dir True categories cs fs t
          = Some (fs, Inr t') \<and> dry_tally t'"
proof (induction cs arbitrary: t)
  case Nil
  then show ?case by simp
next
  case (Cons c cs)
  obtain cat_name cat_data where c: "c = (cat_name, cat_data)"
    by (cases c)
  obtain res where g: "organize_generic ls fs source_dir
      (base_target @ [generic_target_name cat_name cat_data])
      (lower ` set (extensions cat_data)) True = Some (fs, Inr res)"
    and res: "moved res = 0" "entries res = []"
    using organize_generic_dry by blast
  have "dry_tally (record_results t cat_name res)"
    using Cons.prems res by (simp add: dry_tally_record)
  from Cons.IH [OF this] Cons.IH [OF Cons.prems] g show ?case
    by (simp add: c)
qed

text \<open>
  \<^bold>\<open>Claim C6\<close>. A simulate run of the whole tool ends, with its counts or with the exception
  of a subfolder computation, and leaves the filesystem as it was; run again on what it
  left, it ends the same way, with the same counts; and nothing is recorded for the
  ledger: every category reports no move and no entry.
\<close>

theorem simulate_never_mutates:
  "\<exists>r. organize ls cfg base_target fs source_dir True categories = Some (fs, r)
      \<and> (\<forall>fs1 r1. organize ls cfg base_target fs source_dir True categories = Some (fs1, r1)
            \<longrightarrow> fs1 = fs \<and> organize ls cfg base_target fs1 source_dir True categories = Some (fs1, r1))
      \<and> (\<forall>res. r = Inr res \<longrightarrow> result_total_moved res = 0
            \<and> list_all (\<lambda>(cat_name, rs). moved rs = 0 \<and> entries rs = []) (result_categories res))"
proof -
  have d0: "dry_tally empty_tally"
    by (simp add: dry_tally_def empty_tally_def)
  obtain x where x: "dedicated_loop ls cfg base_target source_dir True categories
      (build_organizers cfg) fs empty_tally = Some (fs, x)"
    and xt: "\<And>t'. x = Inr t' \<Longrightarrow> dry_tally t'"
    using dedicated_loop_dry [OF d0] by blast
  have "\<exists>r. organize ls cfg base_target fs source_dir True categories = Some (fs, r)
      \<and> (\<forall>res. r = Inr res \<longrightarrow> result_total_moved res = 0
            \<and> list_all (\<lambda>(cat_name, rs). moved rs = 0 \<and> entries rs = []) (result_categories res))"
  proof (cases x)
    case (Inl e)
    with x show ?thesis by (simp add: organize_def)
  next
    case (Inr t1)
    with xt have "dry_tally t1" by simp
    then obtain t2 where g: "generic_categories_loop ls cfg base_target source_dir True categories
        cfg fs t1 = Some (fs, Inr t2)" and t2: "dry_tally t2"
      using generic_categories_loop_dry by blast
    from x Inr g t2 show ?thesis
      by (simp add: organize_def result_of_def dry_tally_def)
  qed
  then show ?thesis by auto
qed

theorem simulate_never_mutates_witness:
  "organize demo_lister demo_config [''s'', ''organized''] demo_fs [''s''] True None
     = Some (demo_fs, Inr \<lparr>result_total_moved = 0, result_total_would_move = 2,
         result_categories =
           [(''photos'', \<lparr>moved = 0, would_move = 1, duplicates = 0, entries = []\<rparr>),
            (''code'', \<lparr>moved = 0, would_move = 1, duplicates = 0, entries = []\<rparr>)]\<rparr>)"
  using simulate_never_mutates [of demo_lister demo_config "[''s'', ''organized'']" demo_fs "[''s'']" None]
  by (simp add: run_eval demo_config_def demo_fs_def demo_lister_def exif_jpeg_date)

section \<open>The ledger of a run\<close>

lemma organize_loop_frame:
  "organize_loop sub target dry_run files fs r = Some (fs', Inr r') \<Longrightarrow>
     moved r \<le> moved r' \<and> (moved r' = moved r \<longrightarrow> fs' = fs)"
proof (induction files arbitrary: fs r)
  case Nil
  then show ?case by simp
next
  case (Cons f files)
  show ?case
  proof (cases "sub fs f")
    case (Inl x)
    with Cons.prems show ?thesis by simp
  next
    case (Inr subfolder)
    note sub = Inr
    show ?thesis
    proof (cases dry_run)
      case True
      with Cons.prems sub
      have "organize_loop sub target dry_run files fs (r\<lparr>would_move := would_move r + 1\<rparr>)
              = Some (fs', Inr r')"
        by simp
      from Cons.IH [OF this] show ?thesis by simp
    next
      case False
      with Cons.prems sub obtain fs1 fs2 dest dup
        where "organize_loop sub target dry_run files fs2 (count_move r f dest dup) = Some (fs', Inr r')"
        by (auto split: sum.splits option.splits)
      from Cons.IH [OF this] show ?thesis
        by (simp add: count_move_def)
    qed
  qed
qed

lemma generic_loop_frame:
  "generic_loop target exts dry_run files fs r = Some (fs', Inr r') \<Longrightarrow>
     moved r \<le> moved r' \<and> (moved r' = moved r \<longrightarrow> fs' = fs)"
proof (induction files arbitrary: fs r)
  case Nil
  then show ?case by simp
next
  case (Cons f files)
  consider (skip) "generic_loop target exts dry_run files fs r = Some (fs', Inr r')"
    | (dry) "generic_loop target exts dry_run files fs (r\<lparr>would_move := would_move r + 1\<rparr>)
               = Some (fs', Inr r')"
    | (move) fs2 dest dup where
        "generic_loop target exts dry_run files fs2 (count_move r f dest dup) = Some (fs', Inr r')"
    using Cons.prems by (auto split: if_splits sum.splits option.splits)
  then show ?case
  proof cases
    case skip
    from Cons.IH [OF this] show ?thesis .
  next
    case dry
    from Cons.IH [OF this] show ?thesis by simp
  next
    case move
    from Cons.IH [OF this] show ?thesis by (simp add: count_move_def)
  qed
qed

lemma organizer_organize_frame:
  "organizer_organize ls cfg org fs source_dir target dry_run = Some (fs', Inr res) \<Longrightarrow>
     moved res = 0 \<Longrightarrow> fs' = fs"
  using organize_loop_frame [of "subfolder_of org" target dry_run _ fs no_results fs' res]
  by (simp add: organizer_organize_def no_results_def)

lemma organize_generic_frame:
  assumes "organize_generic ls fs source_dir target exts dry_run = Some (fs', Inr res)"
    and "moved res = 0"
  shows "only_adds_dirs fs fs'"
proof (cases "is_dir fs source_dir \<and> \<not> dry_run")
  case False
  with assms generic_loop_frame [of target exts dry_run _ fs no_results fs' res]
  have "fs' = fs"
    by (auto simp: organize_generic_def no_results_def split: if_splits)
  then show ?thesis by (simp add: only_adds_dirs_refl)
next
  case True
  with assms obtain fs1 where mk: "mkdir_parents fs target = Inr fs1"
    and loop: "generic_loop target exts dry_run (iterdir ls fs1 source_dir) fs1 no_results
                 = Some (fs', Inr res)"
    by (auto simp: organize_generic_def split: sum.splits)
  from generic_loop_frame [OF loop] assms(2) have "fs' = fs1"
    by (simp add: no_results_def)
  with mk show ?thesis by (simp add: mkdir_parents_only_adds_dirs)
qed

lemma ledger_of_snoc:
  "ledger_of (cats @ [(n, res)])
     = ledger_of cats @ map (\<lambda>(src, dst). create_backup_entry src dst) (entries res)"
  by (simp add: ledger_of_def)

lemma tally_ok_record: "tally_ok t \<Longrightarrow> tally_ok (record_results t n res)"
  by (simp add: tally_ok_def record_results_def ledger_of_snoc)

lemma dedicated_loop_frame:
  "dedicated_loop ls cfg base_target source_dir dry_run categories orgs fs t = Some (fs', Inr t') \<Longrightarrow>
     total_moved t \<le> total_moved t'
     \<and> (total_moved t' = total_moved t \<longrightarrow> only_adds_dirs fs fs')
     \<and> (tally_ok t \<longrightarrow> tally_ok t')"
proof (induction orgs arbitrary: fs t)
  case Nil
  then show ?case by (simp add: only_adds_dirs_refl)
next
  case (Cons org orgs)
  show ?case
  proof (cases "selected categories (category_name org)")
    case False
    with Cons.prems Cons.IH [of fs t] show ?thesis by simp
  next
    case True
    with Cons.prems obtain fs1 res where
      o: "organizer_organize ls cfg org fs source_dir
            (base_target @ [dedicated_target_name cfg (category_name org)]) dry_run
            = Some (fs1, Inr res)"
      and l: "dedicated_loop ls cfg base_target source_dir dry_run categories orgs fs1
            (record_results t (category_name org) res) = Some (fs', Inr t')"
      by (auto split: option.splits sum.splits)
    note ih = Cons.IH [OF l]
    have m: "total_moved (record_results t (category_name org) res) = total_moved t + moved res"
      by (simp add: record_results_def)
    have "only_adds_dirs fs fs'" if "total_moved t' = total_moved t"
    proof -
      from that ih m have z: "moved res = 0"
        and e: "total_moved t' = total_moved (record_results t (category_name org) res)"
        by auto
      from organizer_organize_frame [OF o z] have "fs1 = fs" .
      with ih e show ?thesis by simp
    qed
    with ih m show ?thesis
      by (auto simp: tally_ok_record)
  qed
qed

lemma generic_categories_loop_frame:
  "generic_categories_loop ls cfg base_target source_dir dry_run categories cs fs t
     = Some (fs', Inr t') \<Longrightarrow>
     total_moved t \<le> total_moved t'
     \<and> (total_moved t' = total_moved t \<longrightarrow> only_adds_dirs fs fs')
     \<and> (tally_ok t \<longrightarrow> tally_ok t')"
proof (induction cs arbitrary: fs t)
  case Nil
  then show ?case by (simp add: only_adds_dirs_refl)
next
  case (Cons c cs)
  obtain cat_name cat_data where c: "c = (cat_name, cat_data)"
    by (cases c)
  show ?case
  proof (cases "cat_name \<in> category_name ` set (build_organizers cfg)
                  \<or> \<not> selected categories cat_name")
    case True
    with Cons.prems
    have "generic_categories_loop ls cfg base_target source_dir dry_run categories cs fs t
            = Some (fs', Inr t')"
      by (auto simp: c split: if_splits)
    from Cons.IH [OF this] show ?thesis .
  next
    case False
    with Cons.prems obtain fs1 res where
      o: "organize_generic ls fs source_dir (base_target @ [generic_target_name cat_name cat_data])
            (lower ` set (extensions cat_data)) dry_run = Some (fs1, Inr res)"
      and l: "generic_categories_loop ls cfg base_target source_dir dry_run categories cs fs1
            (record_results t cat_name res) = Some (fs', Inr t')"
      by (auto simp: c split: option.splits sum.splits)
    note ih = Cons.IH [OF l]
    have m: "total_moved (record_results t cat_name res) = total_moved t + moved res"
      by (simp add: record_results_def)
    have "only_adds_dirs fs fs'" if "total_moved t' = total_moved t"
    proof -
      from that ih m have z: "moved res = 0"
        and e: "total_moved t' = total_moved (record_results t cat_name res)"
        by auto
      from organize_generic_frame [OF o z] have "only_adds_dirs fs fs1" .
      with ih e show ?thesis by (auto intro: only_adds_dirs_trans)
    qed
    with ih m show ?thesis
      by (auto simp: tally_ok_record)
  qed
qed

lemma organize_loops:
  assumes "organize ls cfg base_target fs source_dir dry_run categories = Some (fs', Inr res)"
  shows "\<exists>fs1 t1 fs2 t2.
    dedicated_loop ls cfg base_target source_dir dry_run categories (build_organizers cfg) fs
       empty_tally = Some (fs1, Inr t1)
    \<and> generic_categories_loop ls cfg base_target source_dir dry_run categories cfg fs1 t1
       = Some (fs2, Inr t2)
    \<and> res = result_of t2
    \<and> (dry_run \<or> total_moved t2 = 0 \<longrightarrow> fs' = fs2)
    \<and> (\<not> dry_run \<and> 0 < total_moved t2 \<longrightarrow>
         (\<exists>fs3. mkdir_parents fs2 base_target = Inr fs3
           \<and> save_manifest fs3 (manifest t2) (base_target @ [manifest_name]) = (fs', Inr ())))"
  using assms
  by (auto simp: organize_def split: option.splits sum.splits prod.splits if_splits)

lemma save_manifest_written:
  "save_manifest fs m p = (fs', Inr ()) \<Longrightarrow> fs' p = Some (File (Manifest_json m))"
  by (auto simp: save_manifest_def write_file_def split: sum.splits if_splits)

text \<open>
  \<^bold>\<open>Claim C7\<close>, as stated: the ledger file is written if and only if the batch executed
  at least one relocation. Counterexample: a run that stops before its end. The first
  category moves \<^verbatim>\<open>main.py\<close>; then the target directory of the second cannot be made,
  \<^verbatim>\<open>mkdir\<close> raises and nothing in \<^verbatim>\<open>organize\<close> catches it. A relocation has been
  executed, and there is no ledger file.
\<close>

theorem aborted_run_leaves_no_ledger:
  "organize blocked_lister blocked_config [''s'', ''organized''] blocked_fs [''s''] False None
     = Some (blocked_fs_after, Inl OSError)
   \<and> blocked_fs [''s'', ''main.py''] = Some (File (Raw [0x70]))
   \<and> blocked_fs_after [''s'', ''main.py''] = None
   \<and> blocked_fs_after [''s'', ''organized'', ''Code'', ''main.py''] = Some (File (Raw [0x70]))
   \<and> blocked_fs_after ([''s'', ''organized''] @ [manifest_name]) = None"
  by (simp add: run_eval blocked_config_def blocked_fs_def blocked_lister_def blocked_fs_after_def
      fun_eq_iff)


text \<open>
  \<^bold>\<open>Claim C7\<close>, amended to a run that returns. A simulate run moves nothing; a run that moved nothing
  leaves at most new directories, so it writes no ledger file; and a run that moved
  at least one file leaves, at the fixed name in the target root, a ledger that holds
  the entries of all categories in the order of the moves, which \<^verbatim>\<open>load_manifest\<close> reads
  back.
\<close>

theorem ledger_written_iff_moved:
  assumes "organize ls cfg base_target fs source_dir dry_run categories = Some (fs', Inr res)"
  shows "(dry_run \<longrightarrow> result_total_moved res = 0)
     \<and> (result_total_moved res = 0 \<longrightarrow> only_adds_dirs fs fs')
     \<and> (0 < result_total_moved res \<longrightarrow>
          fs' (base_target @ [manifest_name])
            = Some (File (Manifest_json (ledger_of (result_categories res))))
          \<and> load_manifest fs' (base_target @ [manifest_name])
                = Inr (ledger_of (result_categories res)))"
proof -
  have ok0: "tally_ok empty_tally"
    by (simp add: tally_ok_def empty_tally_def ledger_of_def)
  obtain fs1 t1 fs2 t2 where
    d: "dedicated_loop ls cfg base_target source_dir dry_run categories (build_organizers cfg) fs
          empty_tally = Some (fs1, Inr t1)"
    and g: "generic_categories_loop ls cfg base_target source_dir dry_run categories cfg fs1 t1
          = Some (fs2, Inr t2)"
    and res: "res = result_of t2"
    and none: "dry_run \<or> total_moved t2 = 0 \<longrightarrow> fs' = fs2"
    and some: "\<not> dry_run \<and> 0 < total_moved t2 \<longrightarrow>
       (\<exists>fs3. mkdir_parents fs2 base_target = Inr fs3
         \<and> save_manifest fs3 (manifest t2) (base_target @ [manifest_name]) = (fs', Inr ()))"
    using organize_loops [OF assms] by (elim exE conjE) (erule (4) that)
  note fd = dedicated_loop_frame [OF d] and fg = generic_categories_loop_frame [OF g]
  from fd fg ok0 have ok2: "manifest t2 = ledger_of (category_results t2)"
    by (simp add: tally_ok_def)
  have dry: "result_total_moved res = 0" if dry_run
  proof -
    have d0: "dry_tally empty_tally"
      by (simp add: dry_tally_def empty_tally_def)
    from dedicated_loop_dry [OF d0, of ls cfg base_target source_dir categories "build_organizers cfg" fs]
      d that
    have "dry_tally t1" by auto
    from generic_categories_loop_dry [OF this, of ls cfg base_target source_dir categories cfg fs1]
      g that
    have "dry_tally t2" by auto
    then show ?thesis by (simp add: res result_of_def dry_tally_def)
  qed
  have zero: "only_adds_dirs fs fs'" if "result_total_moved res = 0"
  proof -
    from that have z2: "total_moved t2 = 0"
      by (simp add: res result_of_def)
    with fg have z1: "total_moved t1 = 0" by simp
    from fd z1 have "only_adds_dirs fs fs1"
      by (simp add: empty_tally_def)
    moreover from fg z1 z2 have "only_adds_dirs fs1 fs2" by simp
    moreover from none z2 have "fs' = fs2" by simp
    ultimately show ?thesis by (auto intro: only_adds_dirs_trans)
  qed
  have pos: "fs' (base_target @ [manifest_name])
        = Some (File (Manifest_json (ledger_of (result_categories res))))
      \<and> load_manifest fs' (base_target @ [manifest_name]) = Inr (ledger_of (result_categories res))"
    if "0 < result_total_moved res"
  proof -
    from that dry have nd: "\<not> dry_run" by auto
    from that have "0 < total_moved t2"
      by (simp add: res result_of_def)
    with some nd obtain fs3 where
      "save_manifest fs3 (manifest t2) (base_target @ [manifest_name]) = (fs', Inr ())"
      by blast
    from save_manifest_written [OF this] ok2
    show ?thesis by (simp add: res result_of_def load_manifest_def node_at_def)
  qed
  from dry zero pos show ?thesis by blast
qed

theorem ledger_written_iff_moved_witness:
  "organize demo_lister demo_config [''s'', ''organized''] demo_fs [''s''] False None
     = Some (demo_fs_after, Inr demo_result)
   \<and> result_total_moved demo_result = 2
   \<and> load_manifest demo_fs_after ([''s'', ''organized''] @ [manifest_name]) = Inr demo_ledger
   \<and> organize (\<lambda>fs d. [''notes.txt'']) zero_move_config [''out''] empty_source_fs [''s''] False None
     = Some (zero_move_fs_after, Inr zero_move_result)
   \<and> result_total_moved zero_move_result = 0
   \<and> only_adds_dirs empty_source_fs zero_move_fs_after
   \<and> zero_move_fs_after ([''out''] @ [manifest_name]) = None"
proof -
  have l: "ledger_of (result_categories demo_result) = demo_ledger"
    by (simp add: ledger_of_def demo_result_def demo_ledger_def create_backup_entry_def)
  have m: "result_total_moved demo_result = 2"
    by (simp add: demo_result_def)
  have z: "result_total_moved zero_move_result = 0"
    by (simp add: zero_move_result_def)
  have n: "zero_move_fs_after ([''out''] @ [manifest_name]) = None"
    by (simp add: zero_move_fs_after_def manifest_name_def)
  from ledger_written_iff_moved [OF demo_run] ledger_written_iff_moved [OF zero_move_run]
    l m z n demo_run zero_move_run
  show ?thesis
    by simp
qed


section \<open>Duplicate names\<close>















section \<open>Organize, then undo\<close>






















end
